theory Spec2Isabelle
  imports Main "HOL-Library.Sublist" "HOL-Library.Char_ord" "HOL-Library.List_Lexorder"
begin

section \<open>Python values, exceptions and JSON documents\<close>

text \<open>
  The store of \<^verbatim>\<open>agent/state_manager.py\<close> holds values of type \<^verbatim>\<open>Any\<close>. They are
  modelled by the closed datatype below: the values JSON can carry, tuples (which
  \<^verbatim>\<open>json.dump\<close> writes as arrays) and \<open>PObject c\<close>, an instance of a class \<open>c\<close> that the
  JSON encoder refuses (a set, bytes, a socket). Dictionaries are association lists in
  insertion order with string keys, as the annotation \<^verbatim>\<open>Dict[str, Any]\<close> has them.
  Floating point numbers are left out of the value model.
\<close>

datatype pyval =
    PNone
  | PBool bool
  | PInt int
  | PStr string
  | PList "pyval list"
  | PTuple "pyval list"
  | PDict "(string \<times> pyval) list"
  | PObject string

text \<open>
  Exceptions are values. \<open>Raised c m\<close> is an instance of a subclass \<open>c\<close> of
  \<^verbatim>\<open>Exception\<close> raised by user code, with \<^verbatim>\<open>str(e) = m\<close>; \<open>RaisedBase c m\<close> is an
  exception outside \<^verbatim>\<open>Exception\<close> (\<^verbatim>\<open>KeyboardInterrupt\<close>, \<^verbatim>\<open>SystemExit\<close>), which
  \<^verbatim>\<open>except Exception\<close> does not catch. Two exceptions of the same class and message are the
  same value. The message of the JSON encoder's \<^verbatim>\<open>TypeError\<close> and of \<^verbatim>\<open>load\<close>'s
  \<^verbatim>\<open>FileNotFoundError\<close> are the interpreter's; the other messages of built-in exceptions
  only approximate its wording, and no theorem depends on them.
\<close>

datatype exn =
    FileNotFoundError string
  | JSONDecodeError string
  | TypeError string
  | AttributeError string
  | KeyError string
  | Raised string string
  | RaisedBase string string

fun exn_str :: "exn \<Rightarrow> string" where
  "exn_str (FileNotFoundError m) = m"
| "exn_str (JSONDecodeError m) = m"
| "exn_str (TypeError m) = m"
| "exn_str (AttributeError m) = m"
| "exn_str (KeyError k) = [CHR 0x27] @ k @ [CHR 0x27]"
| "exn_str (Raised c m) = m"
| "exn_str (RaisedBase c m) = m"

fun exn_type_name :: "exn \<Rightarrow> string" where
  "exn_type_name (FileNotFoundError m) = ''FileNotFoundError''"
| "exn_type_name (JSONDecodeError m) = ''JSONDecodeError''"
| "exn_type_name (TypeError m) = ''TypeError''"
| "exn_type_name (AttributeError m) = ''AttributeError''"
| "exn_type_name (KeyError k) = ''KeyError''"
| "exn_type_name (Raised c m) = c"
| "exn_type_name (RaisedBase c m) = c"

fun is_Exception :: "exn \<Rightarrow> bool" where
  "is_Exception (RaisedBase c m) = False"
| "is_Exception e = True"

fun type_name :: "pyval \<Rightarrow> string" where
  "type_name PNone = ''NoneType''"
| "type_name (PBool b) = ''bool''"
| "type_name (PInt i) = ''int''"
| "type_name (PStr s) = ''str''"
| "type_name (PList xs) = ''list''"
| "type_name (PTuple xs) = ''tuple''"
| "type_name (PDict kvs) = ''dict''"
| "type_name (PObject c) = c"

subsection \<open>Dictionaries\<close>

text \<open>
  \<^verbatim>\<open>d[k] = v\<close> overwrites the value of a key in place and appends a new key at the end;
  \<^verbatim>\<open>del d[k]\<close> removes the key.
\<close>

fun dict_setitem :: "(string \<times> 'v) list \<Rightarrow> string \<Rightarrow> 'v \<Rightarrow> (string \<times> 'v) list" where
  "dict_setitem [] k v = [(k, v)]"
| "dict_setitem ((k', v') # kvs) k v =
     (if k' = k then (k, v) # kvs else (k', v') # dict_setitem kvs k v)"

definition dict_delitem :: "(string \<times> 'v) list \<Rightarrow> string \<Rightarrow> (string \<times> 'v) list" where
  "dict_delitem kvs k = filter (\<lambda>p. fst p \<noteq> k) kvs"

definition dict_keys :: "(string \<times> 'v) list \<Rightarrow> string list" where
  "dict_keys kvs = map fst kvs"

text \<open>The same operations on any Python value, with the exception Python raises.\<close>

fun py_setitem :: "pyval \<Rightarrow> string \<Rightarrow> pyval \<Rightarrow> exn + pyval" where
  "py_setitem (PDict kvs) k v = Inr (PDict (dict_setitem kvs k v))"
| "py_setitem (PList xs) k v =
     Inl (TypeError ''list indices must be integers or slices, not str'')"
| "py_setitem obj k v =
     Inl (TypeError ([CHR 0x27] @ type_name obj @ [CHR 0x27] @
       '' object does not support item assignment''))"

fun py_contains :: "string \<Rightarrow> pyval \<Rightarrow> exn + bool" where
  "py_contains k (PDict kvs) = Inr (k \<in> set (dict_keys kvs))"
| "py_contains k (PList xs) = Inr (PStr k \<in> set xs)"
| "py_contains k (PTuple xs) = Inr (PStr k \<in> set xs)"
| "py_contains k (PStr s) = Inr (sublist k s)"
| "py_contains k obj =
     Inl (TypeError (''argument of type '' @ [CHR 0x27] @ type_name obj @ [CHR 0x27] @
       '' is not iterable''))"

fun py_delitem :: "pyval \<Rightarrow> string \<Rightarrow> exn + pyval" where
  "py_delitem (PDict kvs) k =
     (if k \<in> set (dict_keys kvs) then Inr (PDict (dict_delitem kvs k)) else Inl (KeyError k))"
| "py_delitem (PList xs) k =
     Inl (TypeError ''list indices must be integers or slices, not str'')"
| "py_delitem obj k =
     Inl (TypeError ([CHR 0x27] @ type_name obj @ [CHR 0x27] @
       '' object does not support item deletion''))"

fun py_getitem :: "pyval \<Rightarrow> string \<Rightarrow> exn + pyval" where
  "py_getitem (PDict kvs) k =
     (case map_of kvs k of None \<Rightarrow> Inl (KeyError k) | Some v \<Rightarrow> Inr v)"
| "py_getitem (PList xs) k =
     Inl (TypeError ''list indices must be integers or slices, not str'')"
| "py_getitem (PTuple xs) k =
     Inl (TypeError ''tuple indices must be integers or slices, not str'')"
| "py_getitem (PStr s) k =
     Inl (TypeError ''string indices must be integers, not 'str' '')"
| "py_getitem obj k =
     Inl (TypeError ([CHR 0x27] @ type_name obj @ [CHR 0x27] @
       '' object is not subscriptable''))"

fun py_get :: "pyval \<Rightarrow> string \<Rightarrow> pyval \<Rightarrow> exn + pyval" where
  "py_get (PDict kvs) k d = Inr (case map_of kvs k of None \<Rightarrow> d | Some v \<Rightarrow> v)"
| "py_get obj k d =
     Inl (AttributeError ([CHR 0x27] @ type_name obj @ [CHR 0x27] @
       '' object has no attribute 'get' ''))"

fun py_clear :: "pyval \<Rightarrow> exn + pyval" where
  "py_clear (PDict kvs) = Inr (PDict [])"
| "py_clear (PList xs) = Inr (PList [])"
| "py_clear obj =
     Inl (AttributeError ([CHR 0x27] @ type_name obj @ [CHR 0x27] @
       '' object has no attribute 'clear' ''))"

fun is_dict :: "pyval \<Rightarrow> bool" where
  "is_dict (PDict kvs) = True"
| "is_dict obj = False"

text \<open>\<open>field obj k\<close> reads \<^verbatim>\<open>obj[k]\<close> where \<open>obj\<close> is a dictionary holding \<open>k\<close>.\<close>

fun field :: "pyval \<Rightarrow> string \<Rightarrow> pyval option" where
  "field (PDict kvs) k = map_of kvs k"
| "field obj k = None"

subsection \<open>JSON documents\<close>

text \<open>
  A file holds a JSON document or text that \<^verbatim>\<open>json.load\<close> cannot parse (with the message
  of the decoder's error). The text layer of JSON (indentation, escapes) is not modelled.
  \<^verbatim>\<open>json.dump\<close> writes a tuple as an array and raises \<^verbatim>\<open>TypeError\<close> at the first value it
  cannot encode; \<^verbatim>\<open>json.load\<close> builds a dictionary from an object's members in order, a
  repeated member overwriting the earlier one.
\<close>

datatype json =
    JNull
  | JBool bool
  | JNum int
  | JStr string
  | JArr "json list"
  | JObj "(string \<times> json) list"

datatype disk_file = Document json | Malformed string

fun collect :: "('e + 'a) list \<Rightarrow> 'e + 'a list" where
  "collect [] = Inr []"
| "collect (Inl e # rs) = Inl e"
| "collect (Inr x # rs) =
     (case collect rs of Inl e \<Rightarrow> Inl e | Inr xs \<Rightarrow> Inr (x # xs))"

fun collect_items :: "('k \<times> ('e + 'a)) list \<Rightarrow> 'e + ('k \<times> 'a) list" where
  "collect_items [] = Inr []"
| "collect_items ((k, Inl e) # rs) = Inl e"
| "collect_items ((k, Inr x) # rs) =
     (case collect_items rs of Inl e \<Rightarrow> Inl e | Inr xs \<Rightarrow> Inr ((k, x) # xs))"

primrec json_dump :: "pyval \<Rightarrow> exn + json" where
  "json_dump PNone = Inr JNull"
| "json_dump (PBool b) = Inr (JBool b)"
| "json_dump (PInt i) = Inr (JNum i)"
| "json_dump (PStr s) = Inr (JStr s)"
| "json_dump (PList xs) = map_sum id JArr (collect (map json_dump xs))"
| "json_dump (PTuple xs) = map_sum id JArr (collect (map json_dump xs))"
| "json_dump (PDict kvs) =
     map_sum id JObj (collect_items (map (map_prod id json_dump) kvs))"
| "json_dump (PObject c) =
     Inl (TypeError (''Object of type '' @ c @ '' is not JSON serializable''))"

definition jsonable :: "pyval \<Rightarrow> bool" where
  "jsonable v = (case json_dump v of Inl e \<Rightarrow> False | Inr doc \<Rightarrow> True)"

definition dict_of_items :: "(string \<times> 'v) list \<Rightarrow> (string \<times> 'v) list" where
  "dict_of_items kvs = foldl (\<lambda>d p. dict_setitem d (fst p) (snd p)) [] kvs"

primrec json_load :: "json \<Rightarrow> pyval" where
  "json_load JNull = PNone"
| "json_load (JBool b) = PBool b"
| "json_load (JNum i) = PInt i"
| "json_load (JStr s) = PStr s"
| "json_load (JArr xs) = PList (map json_load xs)"
| "json_load (JObj kvs) = PDict (dict_of_items (map (map_prod id json_load) kvs))"

text \<open>
  The values that a dump followed by a load gives back unchanged: no tuple and no opaque
  object anywhere inside, and (as in every Python dictionary) no key twice.
\<close>

primrec json_faithful :: "pyval \<Rightarrow> bool" where
  "json_faithful PNone = True"
| "json_faithful (PBool b) = True"
| "json_faithful (PInt i) = True"
| "json_faithful (PStr s) = True"
| "json_faithful (PList xs) = list_all id (map json_faithful xs)"
| "json_faithful (PTuple xs) = False"
| "json_faithful (PDict kvs) =
     (distinct (map fst kvs) \<and> list_all snd (map (map_prod id json_faithful) kvs))"
| "json_faithful (PObject c) = False"

section \<open>StateManager\<close>

text \<open>
  The object's attributes are the fields of a record. A path is the pair of the directory
  and the file name joined to it; the file system maps paths to files. Every reading of
  the clock is a parameter of the operation that reads it: \<open>now\<close> is what
  \<^verbatim>\<open>datetime.now().isoformat()\<close> returns and \<open>stamp\<close> what
  \<^verbatim>\<open>datetime.now().strftime('%Y%m%d_%H%M%S')\<close> returns. Failures of the disk itself
  (permissions, a missing directory, a full disk) are not modelled: every write to a path
  goes through. An operation returns the exception it raises or its result, together with
  the object and the file system as the call leaves them. The methods \<^verbatim>\<open>set\<close> and \<^verbatim>\<open>get\<close>
  are \<open>set_value\<close> and \<open>get_value\<close> here, and \<^verbatim>\<open>__init__\<close> is \<open>StateManager_init\<close>.
\<close>

type_synonym path = "string \<times> string"

type_synonym filesystem = "path \<Rightarrow> disk_file option"

record StateManager =
  state_dir :: string
  autosave :: bool
  state :: pyval
  metadata :: pyval

definition StateManager_init :: "string \<Rightarrow> bool \<Rightarrow> string \<Rightarrow> string \<Rightarrow> StateManager" where
  "StateManager_init dir auto now1 now2 =
     \<lparr> state_dir = dir, autosave = auto, state = PDict [],
       metadata = PDict [(''created_at'', PStr now1), (''updated_at'', PStr now2),
                         (''version'', PStr ''1.0'')] \<rparr>"

definition endswith :: "string \<Rightarrow> string \<Rightarrow> bool" where
  "endswith s suf = suffix suf s"

definition save_path :: "StateManager \<Rightarrow> string \<Rightarrow> path" where
  "save_path sm filename = (state_dir sm, filename @ ''.json'')"

definition load_path :: "StateManager \<Rightarrow> string \<Rightarrow> path" where
  "load_path sm filename =
     (state_dir sm, if \<not> endswith filename ''.json'' then filename @ ''.json'' else filename)"

definition document_of :: "StateManager \<Rightarrow> pyval" where
  "document_of sm = PDict [(''metadata'', metadata sm), (''state'', state sm)]"

text \<open>
  \<^verbatim>\<open>open(filepath, 'w')\<close> truncates the file and \<^verbatim>\<open>json.dump\<close> writes it piece by piece, so
  a dump that raises leaves an unfinished document behind, which no later \<^verbatim>\<open>json.load\<close>
  can parse.
\<close>

definition write_json :: "filesystem \<Rightarrow> path \<Rightarrow> pyval \<Rightarrow> (exn + unit) \<times> filesystem" where
  "write_json fs p data =
     (case json_dump data of
        Inl e \<Rightarrow> (Inl e, fs(p \<mapsto> Malformed ''Expecting value''))
      | Inr doc \<Rightarrow> (Inr (), fs(p \<mapsto> Document doc)))"

definition save :: "StateManager \<Rightarrow> filesystem \<Rightarrow> string option \<Rightarrow> string \<Rightarrow>
    (exn + path) \<times> filesystem" where
  "save sm fs filename stamp =
     (let filename' = (case filename of None \<Rightarrow> ''state_'' @ stamp | Some n \<Rightarrow> n);
          filepath = save_path sm filename'
      in case write_json fs filepath (document_of sm) of
           (Inl e, fs') \<Rightarrow> (Inl e, fs')
         | (Inr u, fs') \<Rightarrow> (Inr filepath, fs'))"

definition autosave_after :: "StateManager \<Rightarrow> filesystem \<Rightarrow> string \<Rightarrow> 'a \<Rightarrow>
    (exn + 'a) \<times> StateManager \<times> filesystem" where
  "autosave_after sm fs stamp r =
     (if autosave sm then
        (case save sm fs None stamp of
           (Inl e, fs') \<Rightarrow> (Inl e, sm, fs')
         | (Inr p, fs') \<Rightarrow> (Inr r, sm, fs'))
      else (Inr r, sm, fs))"

definition touch :: "StateManager \<Rightarrow> string \<Rightarrow> exn + StateManager" where
  "touch sm now =
     (case py_setitem (metadata sm) ''updated_at'' (PStr now) of
        Inl e \<Rightarrow> Inl e
      | Inr md \<Rightarrow> Inr (sm\<lparr>metadata := md\<rparr>))"

definition set_value :: "StateManager \<Rightarrow> filesystem \<Rightarrow> string \<Rightarrow> pyval \<Rightarrow> string \<Rightarrow> string \<Rightarrow>
    (exn + unit) \<times> StateManager \<times> filesystem" where
  "set_value sm fs key v now stamp =
     (case py_setitem (state sm) key v of
        Inl e \<Rightarrow> (Inl e, sm, fs)
      | Inr st \<Rightarrow>
          (let sm1 = sm\<lparr>state := st\<rparr> in
           case touch sm1 now of
             Inl e \<Rightarrow> (Inl e, sm1, fs)
           | Inr sm2 \<Rightarrow> autosave_after sm2 fs stamp ()))"

definition get_value :: "StateManager \<Rightarrow> string \<Rightarrow> pyval \<Rightarrow> exn + pyval" where
  "get_value sm key dflt = py_get (state sm) key dflt"

definition delete :: "StateManager \<Rightarrow> filesystem \<Rightarrow> string \<Rightarrow> string \<Rightarrow> string \<Rightarrow>
    (exn + bool) \<times> StateManager \<times> filesystem" where
  "delete sm fs key now stamp =
     (case py_contains key (state sm) of
        Inl e \<Rightarrow> (Inl e, sm, fs)
      | Inr False \<Rightarrow> (Inr False, sm, fs)
      | Inr True \<Rightarrow>
          (case py_delitem (state sm) key of
             Inl e \<Rightarrow> (Inl e, sm, fs)
           | Inr st \<Rightarrow>
               (let sm1 = sm\<lparr>state := st\<rparr> in
                case touch sm1 now of
                  Inl e \<Rightarrow> (Inl e, sm1, fs)
                | Inr sm2 \<Rightarrow> autosave_after sm2 fs stamp True)))"

definition clear :: "StateManager \<Rightarrow> filesystem \<Rightarrow> string \<Rightarrow> string \<Rightarrow>
    (exn + unit) \<times> StateManager \<times> filesystem" where
  "clear sm fs now stamp =
     (case py_clear (state sm) of
        Inl e \<Rightarrow> (Inl e, sm, fs)
      | Inr st \<Rightarrow>
          (let sm1 = sm\<lparr>state := st\<rparr> in
           case touch sm1 now of
             Inl e \<Rightarrow> (Inl e, sm1, fs)
           | Inr sm2 \<Rightarrow> autosave_after sm2 fs stamp ()))"

definition load :: "StateManager \<Rightarrow> filesystem \<Rightarrow> string \<Rightarrow> string \<Rightarrow>
    (exn + unit) \<times> StateManager" where
  "load sm fs filename now =
     (let filepath = load_path sm filename in
      case fs filepath of
        None \<Rightarrow>
          (Inl (FileNotFoundError (''State file not found: '' @ fst filepath @ ''/'' @ snd filepath)),
           sm)
      | Some (Malformed m) \<Rightarrow> (Inl (JSONDecodeError m), sm)
      | Some (Document doc) \<Rightarrow>
          (let data = json_load doc in
           case py_get data ''state'' (PDict []) of
             Inl e \<Rightarrow> (Inl e, sm)
           | Inr st \<Rightarrow>
               (let sm1 = sm\<lparr>state := st\<rparr> in
                case py_get data ''metadata'' (PDict []) of
                  Inl e \<Rightarrow> (Inl e, sm1)
                | Inr md \<Rightarrow>
                    (let sm2 = sm1\<lparr>metadata := md\<rparr> in
                     case touch sm2 now of
                       Inl e \<Rightarrow> (Inl e, sm2)
                     | Inr sm3 \<Rightarrow> (Inr (), sm3)))))"

definition backup :: "StateManager \<Rightarrow> filesystem \<Rightarrow> string option \<Rightarrow> string \<Rightarrow>
    (exn + path) \<times> filesystem" where
  "backup sm fs backup_dir stamp =
     (let backup_path =
            (case backup_dir of
               None \<Rightarrow> state_dir sm @ ''/backups''
             | Some d \<Rightarrow> if d \<noteq> [] then d else state_dir sm @ ''/backups'');
          backup_filepath = (backup_path, (''backup_'' @ stamp) @ ''.json'')
      in case write_json fs backup_filepath (document_of sm) of
           (Inl e, fs') \<Rightarrow> (Inl e, fs')
         | (Inr u, fs') \<Rightarrow> (Inr backup_filepath, fs'))"

text \<open>
  A schema maps keys to Python types. \<^verbatim>\<open>bool\<close> is a subclass of \<^verbatim>\<open>int\<close> and every value
  is an instance of \<^verbatim>\<open>object\<close>; \<open>TClass c\<close> is any other class, of which only the opaque
  objects of that class are instances.
\<close>

datatype pytype = TNoneType | TBool | TInt | TStr | TList | TTuple | TDict | TObject | TClass string

fun isinstance :: "pyval \<Rightarrow> pytype \<Rightarrow> bool" where
  "isinstance v TObject = True"
| "isinstance PNone ty = (ty = TNoneType)"
| "isinstance (PBool b) ty = (ty = TBool \<or> ty = TInt)"
| "isinstance (PInt i) ty = (ty = TInt)"
| "isinstance (PStr s) ty = (ty = TStr)"
| "isinstance (PList xs) ty = (ty = TList)"
| "isinstance (PTuple xs) ty = (ty = TTuple)"
| "isinstance (PDict kvs) ty = (ty = TDict)"
| "isinstance (PObject c) ty = (ty = TClass c)"

fun validate_loop :: "pyval \<Rightarrow> (string \<times> pytype) list \<Rightarrow> exn + bool" where
  "validate_loop st [] = Inr True"
| "validate_loop st ((key, expected_type) # rest) =
     (case py_contains key st of
        Inl e \<Rightarrow> Inl e
      | Inr False \<Rightarrow> validate_loop st rest
      | Inr True \<Rightarrow>
          (case py_getitem st key of
             Inl e \<Rightarrow> Inl e
           | Inr v \<Rightarrow> if \<not> isinstance v expected_type then Inr False
                      else validate_loop st rest))"

definition validate_state :: "StateManager \<Rightarrow> (string \<times> pytype) list \<Rightarrow> exn + bool" where
  "validate_state sm schema = validate_loop (state sm) schema"

definition get_metadata :: "StateManager \<Rightarrow> pyval" where
  "get_metadata sm = metadata sm"

subsection \<open>Sequences of calls\<close>

text \<open>
  A caller drives one object through any sequence of its mutating and persisting methods,
  each call with its own readings of the clock. A call that raises leaves the object as it
  was at the raise, and the caller may carry on.
\<close>

datatype command =
    Set string pyval
  | Delete string
  | Clear
  | Save "string option"
  | Backup "string option"
  | Load string

fun exec :: "command \<Rightarrow> string \<times> string \<Rightarrow> StateManager \<times> filesystem \<Rightarrow>
    StateManager \<times> filesystem" where
  "exec (Set k v) (now, stamp) (sm, fs) = snd (set_value sm fs k v now stamp)"
| "exec (Delete k) (now, stamp) (sm, fs) = snd (delete sm fs k now stamp)"
| "exec Clear (now, stamp) (sm, fs) = snd (clear sm fs now stamp)"
| "exec (Save n) (now, stamp) (sm, fs) = (sm, snd (save sm fs n stamp))"
| "exec (Backup d) (now, stamp) (sm, fs) = (sm, snd (backup sm fs d stamp))"
| "exec (Load n) (now, stamp) (sm, fs) = (snd (load sm fs n now), fs)"

fun exec_all :: "(command \<times> string \<times> string) list \<Rightarrow> StateManager \<times> filesystem \<Rightarrow>
    StateManager \<times> filesystem" where
  "exec_all [] s = s"
| "exec_all ((c, t) # cs) s = exec_all cs (exec c t s)"

fun is_Load :: "command \<Rightarrow> bool" where
  "is_Load (Load n) = True"
| "is_Load c = False"

section \<open>BaseAgent\<close>

text \<open>
  The agent of \<^verbatim>\<open>agent/base_agent.py\<close> owns one StateManager and the flag
  \<^verbatim>\<open>is_running\<close>. Its logger is a sink that the model leaves out. The abstract method
  \<^verbatim>\<open>process\<close> is a parameter of \<open>run\<close>: any function that takes the input, may read and
  change the agent and the files, and returns a result or raises. A hook reads the clock
  three times: for the timestamp it stores (\<open>at_call\<close>), in \<^verbatim>\<open>set\<close> for \<^verbatim>\<open>updated_at\<close>
  (\<open>at_set\<close>), and in the autosave for the file name (\<open>at_save\<close>).
\<close>

record hook_clock =
  at_call :: string
  at_set :: string
  at_save :: string

record BaseAgent =
  agent_id :: string
  state_manager :: StateManager
  is_running :: bool

definition BaseAgent_init :: "string \<Rightarrow> string \<Rightarrow> bool \<Rightarrow> string \<Rightarrow> string \<Rightarrow> BaseAgent" where
  "BaseAgent_init ident dir auto now1 now2 =
     \<lparr> agent_id = ident, state_manager = StateManager_init dir auto now1 now2,
       is_running = False \<rparr>"

definition set_state :: "BaseAgent \<Rightarrow> filesystem \<Rightarrow> string \<Rightarrow> pyval \<Rightarrow> string \<Rightarrow> string \<Rightarrow>
    (exn + unit) \<times> BaseAgent \<times> filesystem" where
  "set_state a fs key v now stamp =
     (case set_value (state_manager a) fs key v now stamp of
        (r, sm, fs') \<Rightarrow> (r, a\<lparr>state_manager := sm\<rparr>, fs'))"

definition on_start :: "BaseAgent \<Rightarrow> filesystem \<Rightarrow> hook_clock \<Rightarrow>
    (exn + unit) \<times> BaseAgent \<times> filesystem" where
  "on_start a fs c = set_state a fs ''last_start'' (PStr (at_call c)) (at_set c) (at_save c)"

definition on_stop :: "BaseAgent \<Rightarrow> filesystem \<Rightarrow> hook_clock \<Rightarrow>
    (exn + unit) \<times> BaseAgent \<times> filesystem" where
  "on_stop a fs c = set_state a fs ''last_stop'' (PStr (at_call c)) (at_set c) (at_save c)"

definition on_success :: "BaseAgent \<Rightarrow> filesystem \<Rightarrow> 'o \<Rightarrow> hook_clock \<Rightarrow>
    (exn + unit) \<times> BaseAgent \<times> filesystem" where
  "on_success a fs result c =
     set_state a fs ''last_success'' (PStr (at_call c)) (at_set c) (at_save c)"

definition error_record :: "exn \<Rightarrow> string \<Rightarrow> pyval" where
  "error_record e now =
     PDict [(''timestamp'', PStr now), (''error'', PStr (exn_str e)),
            (''type'', PStr (exn_type_name e))]"

definition on_error :: "BaseAgent \<Rightarrow> filesystem \<Rightarrow> exn \<Rightarrow> hook_clock \<Rightarrow>
    (exn + unit) \<times> BaseAgent \<times> filesystem" where
  "on_error a fs e c =
     set_state a fs ''last_error'' (error_record e (at_call c)) (at_set c) (at_save c)"

type_synonym ('i, 'o) process =
  "'i \<Rightarrow> BaseAgent \<Rightarrow> filesystem \<Rightarrow> (exn + 'o) \<times> BaseAgent \<times> filesystem"

text \<open>
  \<open>run\<close> in three blocks, as the \<^verbatim>\<open>try\<close> statement has them. The \<^verbatim>\<open>except Exception\<close>
  clause handles an exception of the \<^verbatim>\<open>try\<close> block that is an \<^verbatim>\<open>Exception\<close>: it calls
  \<^verbatim>\<open>on_error\<close> and re-raises, unless \<^verbatim>\<open>on_error\<close> raises itself. The \<^verbatim>\<open>finally\<close> clause runs
  in every case: it calls \<^verbatim>\<open>on_stop\<close> and then clears \<^verbatim>\<open>is_running\<close>; an exception of
  \<^verbatim>\<open>on_stop\<close> leaves the clause at once and replaces the pending result.
\<close>

definition try_block :: "('i, 'o) process \<Rightarrow> BaseAgent \<Rightarrow> filesystem \<Rightarrow> 'i \<Rightarrow>
    hook_clock \<Rightarrow> hook_clock \<Rightarrow> (exn + 'o) \<times> BaseAgent \<times> filesystem" where
  "try_block process a fs input_data c_start c_success =
     (case on_start a fs c_start of
        (Inl e, a1, fs1) \<Rightarrow> (Inl e, a1, fs1)
      | (Inr u, a1, fs1) \<Rightarrow>
          (case process input_data a1 fs1 of
             (Inl e, a2, fs2) \<Rightarrow> (Inl e, a2, fs2)
           | (Inr result, a2, fs2) \<Rightarrow>
               (case on_success a2 fs2 result c_success of
                  (Inl e, a3, fs3) \<Rightarrow> (Inl e, a3, fs3)
                | (Inr u, a3, fs3) \<Rightarrow> (Inr result, a3, fs3))))"

definition except_block :: "exn \<Rightarrow> BaseAgent \<Rightarrow> filesystem \<Rightarrow> hook_clock \<Rightarrow>
    (exn + 'o) \<times> BaseAgent \<times> filesystem" where
  "except_block e a fs c_error =
     (if is_Exception e then
        (case on_error a fs e c_error of
           (Inl e', a', fs') \<Rightarrow> (Inl e', a', fs')
         | (Inr u, a', fs') \<Rightarrow> (Inl e, a', fs'))
      else (Inl e, a, fs))"

definition finally_block :: "(exn + 'o) \<Rightarrow> BaseAgent \<Rightarrow> filesystem \<Rightarrow> hook_clock \<Rightarrow>
    (exn + 'o) \<times> BaseAgent \<times> filesystem" where
  "finally_block r a fs c_stop =
     (case on_stop a fs c_stop of
        (Inl e, a', fs') \<Rightarrow> (Inl e, a', fs')
      | (Inr u, a', fs') \<Rightarrow> (r, a'\<lparr>is_running := False\<rparr>, fs'))"

definition run :: "('i, 'o) process \<Rightarrow> BaseAgent \<Rightarrow> filesystem \<Rightarrow> 'i \<Rightarrow>
    hook_clock \<Rightarrow> hook_clock \<Rightarrow> hook_clock \<Rightarrow> hook_clock \<Rightarrow>
    (exn + 'o) \<times> BaseAgent \<times> filesystem" where
  "run process a fs input_data c_start c_success c_error c_stop =
     (let a0 = a\<lparr>is_running := True\<rparr> in
      case try_block process a0 fs input_data c_start c_success of
        (Inr result, a1, fs1) \<Rightarrow> finally_block (Inr result) a1 fs1 c_stop
      | (Inl e, a1, fs1) \<Rightarrow>
          (case except_block e a1 fs1 c_error of
             (r, a2, fs2) \<Rightarrow> finally_block r a2 fs2 c_stop))"

section \<open>Predicates and concrete objects\<close>

subsection \<open>Timestamps\<close>

text \<open>
  Timestamps are the strings \<^verbatim>\<open>isoformat()\<close> returns; they are compared as Python compares
  strings, character by character. \<open>stamped_in_order\<close> says that the metadata hold both
  timestamps and \<^verbatim>\<open>updated_at >= created_at\<close>; \<open>not_before\<close> that a reading of the clock is
  not earlier than the stored \<^verbatim>\<open>updated_at\<close>; \<open>loadable_in_order\<close> that a document whose top
  level is an object carries, in a metadata object, a \<^verbatim>\<open>created_at\<close> not later than the
  reading.
\<close>

text \<open>
  What a mutating call does to the metadata: nothing, or \<^verbatim>\<open>updated_at\<close> is set to the
  reading of the clock.
\<close>

definition restamped :: "pyval \<Rightarrow> string \<Rightarrow> pyval \<Rightarrow> bool" where
  "restamped m now m' =
     (m' = m \<or> (\<exists>md. m = PDict md \<and> m' = PDict (dict_setitem md ''updated_at'' (PStr now))))"

definition stamped_in_order :: "StateManager \<Rightarrow> bool" where
  "stamped_in_order sm =
     (case field (metadata sm) ''created_at'' of
        Some (PStr c) \<Rightarrow>
          (case field (metadata sm) ''updated_at'' of Some (PStr u) \<Rightarrow> c \<le> u | _ \<Rightarrow> False)
      | _ \<Rightarrow> False)"

definition not_before :: "StateManager \<Rightarrow> string \<Rightarrow> bool" where
  "not_before sm now =
     (case field (metadata sm) ''updated_at'' of Some (PStr u) \<Rightarrow> u \<le> now | _ \<Rightarrow> False)"

definition loadable_in_order :: "json \<Rightarrow> string \<Rightarrow> bool" where
  "loadable_in_order doc now =
     (case json_load doc of
        PDict kvs \<Rightarrow>
          (case map_of kvs ''metadata'' of
             Some (PDict md) \<Rightarrow>
               (case map_of md ''created_at'' of Some (PStr c) \<Rightarrow> c \<le> now | _ \<Rightarrow> False)
           | _ \<Rightarrow> False)
      | _ \<Rightarrow> True)"

fun load_in_order :: "command \<Rightarrow> StateManager \<Rightarrow> filesystem \<Rightarrow> string \<Rightarrow> bool" where
  "load_in_order (Load n) sm fs now =
     (case fs (load_path sm n) of
        Some (Document doc) \<Rightarrow> loadable_in_order doc now
      | _ \<Rightarrow> True)"
| "load_in_order c sm fs now = True"

fun clock_in_order :: "(command \<times> string \<times> string) list \<Rightarrow> StateManager \<times> filesystem \<Rightarrow> bool" where
  "clock_in_order [] s = True"
| "clock_in_order ((c, t) # cs) s =
     (not_before (fst s) (fst t) \<and> load_in_order c (fst s) (snd s) (fst t)
      \<and> clock_in_order cs (exec c t s))"

subsection \<open>Writes that go through\<close>

text \<open>
  \<open>writes_succeed\<close> holds of a store on which every \<^verbatim>\<open>set\<close> of a value that JSON can
  carry returns: entries and metadata are mappings, and autosave is off or everything the
  store holds can be written.
\<close>

definition writes_succeed :: "StateManager \<Rightarrow> bool" where
  "writes_succeed sm =
     (is_dict (state sm) \<and> is_dict (metadata sm)
      \<and> (\<not> autosave sm \<or> (jsonable (state sm) \<and> jsonable (metadata sm))))"

subsection \<open>Concrete objects\<close>

text \<open>
  The objects and file systems at which the theorems below are evaluated: an empty
  directory, a store built at one time with autosave off, and the same store holding the
  two entries of the test suite.
\<close>

definition empty_fs :: filesystem where
  "empty_fs = (\<lambda>p. None)"

definition example_store :: StateManager where
  "example_store =
     StateManager_init ''states'' False ''2024-01-01T00:00:00'' ''2024-01-01T00:00:01''"

definition example_entries :: StateManager where
  "example_entries = example_store\<lparr>state := PDict [(''name'', PStr ''test''), (''count'', PInt 42)]\<rparr>"

text \<open>A second store over the same directory, built five months later.\<close>

definition later_store :: StateManager where
  "later_store =
     StateManager_init ''states'' False ''2024-06-01T00:00:00'' ''2024-06-01T00:00:00''"

text \<open>
  A store built at 01:30 local time on the night the clocks are set back an hour, a store
  built after that at 01:05, and a directory with a document that has no metadata.
\<close>

definition fallback_store :: StateManager where
  "fallback_store =
     StateManager_init ''states'' False ''2024-11-03T01:30:00'' ''2024-11-03T01:30:00''"

definition after_fallback_store :: StateManager where
  "after_fallback_store =
     StateManager_init ''states'' False ''2024-11-03T01:05:00'' ''2024-11-03T01:05:00''"

definition bare_fs :: filesystem where
  "bare_fs = empty_fs((''states'', ''bare.json'') \<mapsto>
     Document (JObj [(''state'', JObj [(''count'', JNum 42)])]))"

text \<open>A store that holds a tuple.\<close>

definition tuple_store :: StateManager where
  "tuple_store = example_store\<lparr>state := PDict [(''pair'', PTuple [PInt 1, PInt 2])]\<rparr>"

text \<open>
  A store with autosave on that holds an entry the JSON encoder refuses, as
  \<^verbatim>\<open>set("conn", sock)\<close> leaves it behind.
\<close>

definition poisoned_store :: StateManager where
  "poisoned_store =
     (StateManager_init ''states'' True ''2024-01-01T00:00:00'' ''2024-01-01T00:00:01'')
       \<lparr>state := PDict [(''k'', PInt 1), (''conn'', PObject ''socket'')]\<rparr>"

text \<open>
  Agents and their \<^verbatim>\<open>process\<close> methods: the two of the test suite (one returns
  \<^verbatim>\<open>f"Processed: {x}"\<close>, one raises \<^verbatim>\<open>ValueError("Test error")\<close>) on an agent with autosave
  off; a process that records its input with \<^verbatim>\<open>set_state\<close> and returns it; a process that
  keeps a socket in the store (ignoring the failure of the autosave) and then raises
  \<^verbatim>\<open>ValueError("boom")\<close>; and a process that is interrupted from the keyboard. The last three
  run on an agent built with the default \<^verbatim>\<open>autosave=True\<close>.
\<close>

definition tick :: hook_clock where
  "tick = \<lparr> at_call = ''2024-01-02T00:00:00'', at_set = ''2024-01-02T00:00:00'',
            at_save = ''20240102_000000'' \<rparr>"

definition test_agent :: BaseAgent where
  "test_agent =
     BaseAgent_init ''test_agent'' ''states'' False ''2024-01-01T00:00:00'' ''2024-01-01T00:00:01''"

definition autosave_agent :: BaseAgent where
  "autosave_agent =
     BaseAgent_init ''agent'' ''states'' True ''2024-01-01T00:00:00'' ''2024-01-01T00:00:01''"

definition test_process :: "(string, string) process" where
  "test_process x a fs = (Inr (''Processed: '' @ x), a, fs)"

definition error_process :: "(string, string) process" where
  "error_process x a fs = (Inl (Raised ''ValueError'' ''Test error''), a, fs)"

definition recording_process :: "(pyval, pyval) process" where
  "recording_process x a fs =
     (case set_state a fs ''last_input'' x (at_set tick) (at_save tick) of
        (Inl e, a', fs') \<Rightarrow> (Inl e, a', fs')
      | (Inr u, a', fs') \<Rightarrow> (Inr x, a', fs'))"

definition socket_process :: "(string, string) process" where
  "socket_process x a fs =
     (case set_state a fs ''conn'' (PObject ''socket'') (at_set tick) (at_save tick) of
        (r, a', fs') \<Rightarrow> (Inl (Raised ''ValueError'' ''boom''), a', fs'))"

definition interrupted_process :: "(string, string) process" where
  "interrupted_process x a fs = (Inl (RaisedBase ''KeyboardInterrupt'' []), a, fs)"

section \<open>Properties\<close>

lemma endswith_eval: "endswith s suf = prefix (rev suf) (rev s)"
  by (simp add: endswith_def suffix_to_prefix)

lemma py_get_twice: "py_get obj k d = Inr v \<Longrightarrow> py_get obj k' d' = Inl e \<Longrightarrow> False"
  by (cases obj) auto

lemma py_setitem_error: "py_setitem obj k v = Inl e \<Longrightarrow> \<exists>m. e = TypeError m"
  by (cases obj) auto

subsection \<open>File names\<close>

lemma save_writes: "\<exists>f. snd (save sm fs (Some n) stamp) = fs(save_path sm n \<mapsto> f)"
  by (auto simp: save_def write_json_def Let_def split: sum.splits)

lemma load_reads:
  "fs (load_path sm n) = fs' (load_path sm n) \<Longrightarrow> load sm fs n now = load sm fs' n now"
  by (simp add: load_def Let_def)

lemma paths_agree: "(save_path sm n = load_path sm n) = (\<not> endswith n ''.json'')"
  by (auto simp: save_path_def load_path_def)

text \<open>
  Claim C7, as the code has it. \<^verbatim>\<open>load\<close> appends \<^verbatim>\<open>.json\<close> exactly when the name does not
  end in it and reads no other file; \<^verbatim>\<open>save\<close> appends \<^verbatim>\<open>.json\<close> to every name it is
  given (its docstring asks for a name without extension) and writes no other file. So
  \<^verbatim>\<open>save(n)\<close> and \<^verbatim>\<open>load(n)\<close> meet at one file exactly when \<open>n\<close> does not end in
  \<^verbatim>\<open>.json\<close>.
\<close>

theorem save_load_file_names:
  "(\<exists>f. snd (save sm fs (Some n) stamp) = fs((state_dir sm, n @ ''.json'') \<mapsto> f))
   \<and> load_path sm n = (state_dir sm, if endswith n ''.json'' then n else n @ ''.json'')
   \<and> load sm fs n now = load sm (\<lambda>p. if p = load_path sm n then fs p else None) n now
   \<and> (save_path sm n = load_path sm n) = (\<not> endswith n ''.json'')"
  using save_writes [of sm fs n stamp]
    load_reads [of fs sm n "\<lambda>p. if p = load_path sm n then fs p else None" now]
  by (simp add: paths_agree) (simp add: save_path_def load_path_def)

text \<open>
  Claim C7 as stated fails at the name \<^verbatim>\<open>snap.json\<close>: \<^verbatim>\<open>save\<close> does not use it as it is
  but writes \<^verbatim>\<open>snap.json.json\<close>, while \<^verbatim>\<open>load\<close> reads \<^verbatim>\<open>snap.json\<close>.
\<close>

theorem save_load_file_names_counterexample:
  "save_path example_store ''snap.json'' = (''states'', ''snap.json.json'')
   \<and> load_path example_store ''snap.json'' = (''states'', ''snap.json'')
   \<and> save_path example_store ''snap.json'' \<noteq> load_path example_store ''snap.json''"
  by (simp add: save_path_def load_path_def example_store_def StateManager_init_def endswith_eval)

subsection \<open>Loading\<close>

lemma load_error_cases:
  assumes "fst (load sm fs n now) = Inl e" "\<forall>m. e \<noteq> TypeError m"
  shows "snd (load sm fs n now) = sm"
  using assms
  by (auto simp: load_def Let_def touch_def split: option.splits disk_file.splits sum.splits
      dest: py_setitem_error py_get_twice)

text \<open>
  Claim C10: a call of \<^verbatim>\<open>load\<close> on a name whose document does not exist, or whose contents
  do not parse as JSON, raises (\<^verbatim>\<open>FileNotFoundError\<close>, \<^verbatim>\<open>JSONDecodeError\<close>) and leaves the
  whole object, entries and metadata included, exactly as it was before the call.
\<close>

theorem load_failure_keeps_store:
  assumes "fs (load_path sm n) = None \<or> (\<exists>m. fs (load_path sm n) = Some (Malformed m))"
  shows "\<exists>e. load sm fs n now = (Inl e, sm)
           \<and> (exn_type_name e = ''FileNotFoundError'' \<or> exn_type_name e = ''JSONDecodeError'')"
  using assms by (auto simp: load_def Let_def)

theorem load_failure_keeps_store_witness:
  "empty_fs (load_path example_entries ''missing'') = None
   \<and> load example_entries empty_fs ''missing'' ''2024-01-02T00:00:00'' =
       (Inl (FileNotFoundError ''State file not found: states/missing.json''), example_entries)"
  using load_failure_keeps_store [of empty_fs example_entries "''missing''" "''2024-01-02T00:00:00''"]
  by (simp add: empty_fs_def load_def Let_def load_path_def endswith_eval example_entries_def
      example_store_def StateManager_init_def)

subsection \<open>Validation\<close>

lemma validate_loop_dict:
  "validate_loop (PDict kvs) schema =
     Inr (\<forall>(k, ty) \<in> set schema. case map_of kvs k of None \<Rightarrow> True | Some v \<Rightarrow> isinstance v ty)"
proof (induction schema)
  case Nil
  then show ?case by simp
next
  case (Cons p schema)
  obtain k ty where p: "p = (k, ty)" by (cases p)
  show ?case
  proof (cases "map_of kvs k")
    case None
    then have "k \<notin> set (dict_keys kvs)" by (simp add: dict_keys_def map_of_eq_None_iff)
    with None Cons p show ?thesis by simp
  next
    case (Some v)
    then have "k \<in> set (dict_keys kvs)"
      by (metis dict_keys_def map_of_eq_None_iff option.distinct(1) set_map)
    with Some Cons p show ?thesis by simp
  qed
qed

text \<open>
  Claim C9: on a store whose entries are a mapping, \<^verbatim>\<open>validate_state\<close> never raises and
  returns a boolean; it returns true exactly when every key of the schema that is present
  in the entries holds a value of the expected type. A key of the schema that is absent
  from the entries is not checked, whatever its expected type.
\<close>

theorem validate_state_checks_present_keys:
  assumes "is_dict (state sm)"
  shows "validate_state sm schema =
     Inr (\<forall>(k, ty) \<in> set schema.
            case field (state sm) k of None \<Rightarrow> True | Some v \<Rightarrow> isinstance v ty)"
proof -
  from assms obtain kvs where "state sm = PDict kvs" by (cases "state sm") auto
  then show ?thesis by (simp add: validate_state_def validate_loop_dict)
qed

theorem validate_state_checks_present_keys_witness:
  "is_dict (state example_entries)
   \<and> validate_state example_entries [(''name'', TStr), (''absent'', TInt)] = Inr True
   \<and> validate_state example_entries [(''name'', TInt)] = Inr False"
  using validate_state_checks_present_keys [of example_entries "[(''name'', TStr), (''absent'', TInt)]"]
    validate_state_checks_present_keys [of example_entries "[(''name'', TInt)]"]
  by (simp add: example_entries_def)

subsection \<open>Entries in memory\<close>

lemma map_of_dict_setitem_same: "map_of (dict_setitem kvs k v) k = Some v"
  by (induction kvs) auto

lemma map_of_dict_setitem_other: "k' \<noteq> k \<Longrightarrow> map_of (dict_setitem kvs k v) k' = map_of kvs k'"
  by (induction kvs) auto

lemma map_of_dict_delitem_same: "map_of (dict_delitem kvs k) k = None"
  by (induction kvs) (auto simp: dict_delitem_def)

lemma map_of_dict_delitem_other: "k' \<noteq> k \<Longrightarrow> map_of (dict_delitem kvs k) k' = map_of kvs k'"
  by (induction kvs) (auto simp: dict_delitem_def)

lemma in_dict_keys: "(k \<in> set (dict_keys kvs)) = (map_of kvs k \<noteq> None)"
  by (simp add: dict_keys_def map_of_eq_None_iff)

lemma autosave_after_result:
  "fst (autosave_after sm fs stamp r) =
     (if autosave sm then (case json_dump (document_of sm) of Inl e \<Rightarrow> Inl e | Inr d \<Rightarrow> Inr r)
      else Inr r)"
  by (simp add: autosave_after_def save_def write_json_def Let_def split: sum.splits)

lemma autosave_after_store: "fst (snd (autosave_after sm fs stamp r)) = sm"
  by (simp add: autosave_after_def split: prod.splits sum.splits)

lemma set_value_dict:
  assumes "state sm = PDict kvs"
  shows "state (fst (snd (set_value sm fs key v now stamp))) = PDict (dict_setitem kvs key v)"
  using assms
  by (auto simp: set_value_def Let_def touch_def autosave_after_store split: sum.splits)

text \<open>
  Claim C5: on a store whose entries are a mapping, \<^verbatim>\<open>set(key, value)\<close> places the entry
  in the entries in memory for every value, also one that JSON cannot carry, and keeps
  every other entry; whatever the call raises is raised afterwards, by the autosave write:
  with intact metadata the call returns normally when autosave is off, and otherwise
  raises exactly what \<^verbatim>\<open>json.dump\<close> raises on the updated store.
\<close>

theorem set_value_places_entry:
  assumes "is_dict (state sm)"
  shows "field (state (fst (snd (set_value sm fs key v now stamp)))) key = Some v
    \<and> (\<forall>k'. k' \<noteq> key \<longrightarrow>
          field (state (fst (snd (set_value sm fs key v now stamp)))) k' = field (state sm) k')
    \<and> (is_dict (metadata sm) \<longrightarrow>
          fst (set_value sm fs key v now stamp) =
            (if autosave sm
             then (case json_dump (document_of (fst (snd (set_value sm fs key v now stamp)))) of
                     Inl e \<Rightarrow> Inl e | Inr d \<Rightarrow> Inr ())
             else Inr ()))"
proof -
  from assms obtain kvs where st: "state sm = PDict kvs" by (cases "state sm") auto
  have a: "state (fst (snd (set_value sm fs key v now stamp))) = PDict (dict_setitem kvs key v)"
    by (rule set_value_dict [OF st])
  have b: "is_dict (metadata sm) \<Longrightarrow>
          fst (set_value sm fs key v now stamp) =
            (if autosave sm
             then (case json_dump (document_of (fst (snd (set_value sm fs key v now stamp)))) of
                     Inl e \<Rightarrow> Inl e | Inr d \<Rightarrow> Inr ())
             else Inr ())"
  proof -
    assume "is_dict (metadata sm)"
    then obtain md where md: "metadata sm = PDict md" by (cases "metadata sm") auto
    show ?thesis
      by (simp add: set_value_def Let_def touch_def st md autosave_after_result autosave_after_store)
  qed
  show ?thesis using a b st
    by (simp add: map_of_dict_setitem_same map_of_dict_setitem_other)
qed

theorem set_value_places_entry_witness:
  "is_dict (state poisoned_store)
   \<and> field (state (fst (snd (set_value poisoned_store empty_fs ''h'' (PObject ''set'')
         ''2024-01-02T00:00:00'' ''20240102_000000'')))) ''h'' = Some (PObject ''set'')
   \<and> fst (set_value poisoned_store empty_fs ''h'' (PObject ''set'')
         ''2024-01-02T00:00:00'' ''20240102_000000'') =
       Inl (TypeError ''Object of type socket is not JSON serializable'')
   \<and> fst (set_value example_entries empty_fs ''h'' (PObject ''set'')
         ''2024-01-02T00:00:00'' ''20240102_000000'') = Inr ()"
  using set_value_places_entry [of poisoned_store empty_fs "''h''" "PObject ''set''"
      "''2024-01-02T00:00:00''" "''20240102_000000''"]
    set_value_places_entry [of example_entries empty_fs "''h''" "PObject ''set''"
      "''2024-01-02T00:00:00''" "''20240102_000000''"]
  by (simp add: poisoned_store_def example_entries_def example_store_def StateManager_init_def
      set_value_def touch_def Let_def autosave_after_def save_def write_json_def document_of_def)

subsection \<open>Deleting\<close>

lemma delete_absent:
  assumes "state sm = PDict kvs" "map_of kvs k = None"
  shows "delete sm fs k now stamp = (Inr False, sm, fs)"
  using assms by (simp add: delete_def in_dict_keys)

lemma delete_present:
  assumes "state sm = PDict kvs" "map_of kvs k \<noteq> None" "metadata sm = PDict md"
  shows "delete sm fs k now stamp =
     autosave_after (sm\<lparr>state := PDict (dict_delitem kvs k),
        metadata := PDict (dict_setitem md ''updated_at'' (PStr now))\<rparr>) fs stamp True"
  using assms by (simp add: delete_def in_dict_keys touch_def Let_def)

lemma delete_present_state:
  assumes "state sm = PDict kvs" "map_of kvs k \<noteq> None"
  shows "state (fst (snd (delete sm fs k now stamp))) = PDict (dict_delitem kvs k)"
  using assms
  by (auto simp: delete_def in_dict_keys touch_def Let_def autosave_after_store split: sum.splits)

text \<open>
  Claim C8, as the code has it. On a store whose entries are a mapping, \<^verbatim>\<open>delete(k)\<close>
  returns false exactly when \<open>k\<close> was absent, and then it does not fail and leaves the
  entries, the metadata (\<^verbatim>\<open>updated_at\<close> included) and the files as they were. When \<open>k\<close>
  was present it is removed from the entries and (with intact metadata) \<^verbatim>\<open>updated_at\<close> is
  refreshed; the call then returns true when autosave is off or the autosave write
  succeeds, and raises the failure of that write otherwise.
\<close>

theorem delete_result:
  assumes "is_dict (state sm)"
  shows "(fst (delete sm fs k now stamp) = Inr False) = (field (state sm) k = None)
    \<and> (field (state sm) k = None \<longrightarrow> delete sm fs k now stamp = (Inr False, sm, fs))
    \<and> (field (state sm) k \<noteq> None \<longrightarrow>
          field (state (fst (snd (delete sm fs k now stamp)))) k = None)
    \<and> (field (state sm) k \<noteq> None \<and> is_dict (metadata sm) \<longrightarrow>
          field (metadata (fst (snd (delete sm fs k now stamp)))) ''updated_at'' = Some (PStr now)
          \<and> fst (delete sm fs k now stamp) =
            (if autosave sm
             then (case json_dump (document_of (fst (snd (delete sm fs k now stamp)))) of
                     Inl e \<Rightarrow> Inl e | Inr d \<Rightarrow> Inr True)
             else Inr True))"
proof -
  from assms obtain kvs where st: "state sm = PDict kvs" by (cases "state sm") auto
  show ?thesis
  proof (cases "map_of kvs k")
    case None
    then show ?thesis using st by (simp add: delete_absent)
  next
    case (Some v)
    then have pr: "map_of kvs k \<noteq> None" by simp
    have ne: "fst (delete sm fs k now stamp) \<noteq> Inr False"
      using st pr
      by (auto simp: delete_def in_dict_keys touch_def Let_def autosave_after_result
          split: sum.splits)
    have md: "is_dict (metadata sm) \<Longrightarrow>
          field (metadata (fst (snd (delete sm fs k now stamp)))) ''updated_at'' = Some (PStr now)
          \<and> fst (delete sm fs k now stamp) =
            (if autosave sm
             then (case json_dump (document_of (fst (snd (delete sm fs k now stamp)))) of
                     Inl e \<Rightarrow> Inl e | Inr d \<Rightarrow> Inr True)
             else Inr True)"
    proof -
      assume "is_dict (metadata sm)"
      then obtain md where md: "metadata sm = PDict md" by (cases "metadata sm") auto
      show ?thesis
        by (simp add: delete_present [OF st pr md] autosave_after_result autosave_after_store
            map_of_dict_setitem_same)
    qed
    have rm: "state (fst (snd (delete sm fs k now stamp))) = PDict (dict_delitem kvs k)"
      by (rule delete_present_state [OF st pr])
    show ?thesis using st Some ne md rm
      by (simp add: map_of_dict_delitem_same)
  qed
qed

theorem delete_result_witness:
  "is_dict (state example_entries) \<and> is_dict (metadata example_entries)
   \<and> field (state example_entries) ''absent'' = None
   \<and> delete example_entries empty_fs ''absent'' ''2024-01-02T00:00:00'' ''20240102_000000'' =
       (Inr False, example_entries, empty_fs)
   \<and> field (state example_entries) ''name'' \<noteq> None
   \<and> fst (delete example_entries empty_fs ''name'' ''2024-01-02T00:00:00'' ''20240102_000000'') =
       Inr True"
  using delete_result [of example_entries empty_fs "''absent''" "''2024-01-02T00:00:00''"
      "''20240102_000000''"]
    delete_result [of example_entries empty_fs "''name''" "''2024-01-02T00:00:00''"
      "''20240102_000000''"]
  by (simp add: example_entries_def example_store_def StateManager_init_def)

text \<open>
  Claim C8 as stated fails where the autosave write fails: the key \<^verbatim>\<open>k\<close> is present, and
  \<^verbatim>\<open>delete("k")\<close> raises the encoder's \<^verbatim>\<open>TypeError\<close> instead of returning true.
\<close>

theorem delete_result_counterexample:
  "field (state poisoned_store) ''k'' = Some (PInt 1)
   \<and> fst (delete poisoned_store empty_fs ''k'' ''2024-01-02T00:00:00'' ''20240102_000000'') =
       Inl (TypeError ''Object of type socket is not JSON serializable'')"
  by (simp add: poisoned_store_def StateManager_init_def delete_def dict_keys_def
      dict_delitem_def touch_def Let_def autosave_after_def save_def write_json_def
      document_of_def)

subsection \<open>Metadata\<close>

lemma touch_metadata:
  "touch sm now = Inr sm' \<Longrightarrow>
     \<exists>md. metadata sm = PDict md \<and> sm' = sm\<lparr>metadata := PDict (dict_setitem md ''updated_at'' (PStr now))\<rparr>"
  by (cases "metadata sm") (auto simp: touch_def)

lemma set_value_metadata:
  "restamped (metadata sm) now (metadata (fst (snd (set_value sm fs k v now stamp))))"
  by (auto simp: restamped_def set_value_def Let_def autosave_after_store
      split: sum.splits dest!: touch_metadata)

lemma delete_metadata:
  "restamped (metadata sm) now (metadata (fst (snd (delete sm fs k now stamp))))"
  by (auto simp: restamped_def delete_def Let_def autosave_after_store
      split: sum.splits bool.splits dest!: touch_metadata)

lemma clear_metadata:
  "restamped (metadata sm) now (metadata (fst (snd (clear sm fs now stamp))))"
  by (auto simp: restamped_def clear_def Let_def autosave_after_store
      split: sum.splits dest!: touch_metadata)

lemma exec_metadata:
  "\<not> is_Load c \<Longrightarrow> restamped (metadata sm) now (metadata (fst (exec c (now, stamp) (sm, fs))))"
  using set_value_metadata delete_metadata clear_metadata
  by (cases c) (auto simp: restamped_def)

lemma restamped_created_at:
  "restamped m now m' \<Longrightarrow> field m' ''created_at'' = field m ''created_at''"
  by (auto simp: restamped_def map_of_dict_setitem_other)

lemma exec_all_created_at:
  "\<forall>c \<in> set cmds. \<not> is_Load (fst c) \<Longrightarrow>
     field (metadata (fst (exec_all cmds s))) ''created_at'' = field (metadata (fst s)) ''created_at''"
proof (induction cmds arbitrary: s)
  case Nil
  then show ?case by simp
next
  case (Cons ct cmds)
  obtain c now stamp where ct: "ct = (c, now, stamp)" by (cases ct)
  obtain sm fs where s: "s = (sm, fs)" by (cases s)
  from Cons.prems ct have nl: "\<not> is_Load c" by simp
  have "field (metadata (fst (exec c (now, stamp) (sm, fs)))) ''created_at'' = field (metadata sm) ''created_at''"
    by (rule restamped_created_at [OF exec_metadata [OF nl]])
  with Cons ct s show ?case by simp
qed

lemma load_success:
  assumes "load sm fs n now = (Inr (), sm')"
  shows "\<exists>doc kvs md. fs (load_path sm n) = Some (Document doc) \<and> json_load doc = PDict kvs
     \<and> (case map_of kvs ''metadata'' of None \<Rightarrow> PDict [] | Some m \<Rightarrow> m) = PDict md
     \<and> sm' = sm\<lparr>state := (case map_of kvs ''state'' of None \<Rightarrow> PDict [] | Some st \<Rightarrow> st),
                metadata := PDict (dict_setitem md ''updated_at'' (PStr now))\<rparr>"
proof -
  from assms obtain doc where doc: "fs (load_path sm n) = Some (Document doc)"
    by (auto simp: load_def Let_def split: option.splits disk_file.splits)
  from assms doc obtain st where st: "py_get (json_load doc) ''state'' (PDict []) = Inr st"
    by (auto simp: load_def Let_def split: sum.splits)
  then obtain kvs where kvs: "json_load doc = PDict kvs" by (cases "json_load doc") auto
  from assms doc kvs show ?thesis
    by (auto simp: load_def Let_def split: sum.splits dest!: touch_metadata)
qed

text \<open>
  Claim C3, as the code has it. The constructor sets \<^verbatim>\<open>created_at\<close>; no sequence of
  \<^verbatim>\<open>set\<close>, \<^verbatim>\<open>delete\<close>, \<^verbatim>\<open>clear\<close>, \<^verbatim>\<open>save\<close> and \<^verbatim>\<open>backup\<close> calls changes it, whether
  the calls return or raise. A \<^verbatim>\<open>load\<close> that returns replaces the metadata by those of the
  document, so that \<^verbatim>\<open>created_at\<close> becomes the document's \<^verbatim>\<open>created_at\<close> (none when the
  document has no metadata or no such member).
\<close>

theorem created_at_replaced_only_by_load:
  "field (metadata (StateManager_init d a t1 t2)) ''created_at'' = Some (PStr t1)
   \<and> ((\<forall>c \<in> set cmds. \<not> is_Load (fst c)) \<longrightarrow>
        field (metadata (fst (exec_all cmds (sm, fs)))) ''created_at'' = field (metadata sm) ''created_at'')
   \<and> (load sm fs n now = (Inr (), sm') \<longrightarrow>
        (\<exists>doc. fs (load_path sm n) = Some (Document doc)
           \<and> field (metadata sm') ''created_at'' =
               (case field (json_load doc) ''metadata'' of None \<Rightarrow> None | Some md \<Rightarrow> field md ''created_at'')))"
proof -
  have a: "field (metadata (StateManager_init d a t1 t2)) ''created_at'' = Some (PStr t1)"
    by (simp add: StateManager_init_def)
  have b: "(\<forall>c \<in> set cmds. \<not> is_Load (fst c)) \<Longrightarrow>
        field (metadata (fst (exec_all cmds (sm, fs)))) ''created_at'' = field (metadata sm) ''created_at''"
    using exec_all_created_at [of cmds "(sm, fs)"] by simp
  have c: "load sm fs n now = (Inr (), sm') \<Longrightarrow>
        (\<exists>doc. fs (load_path sm n) = Some (Document doc)
           \<and> field (metadata sm') ''created_at'' =
               (case field (json_load doc) ''metadata'' of None \<Rightarrow> None | Some md \<Rightarrow> field md ''created_at''))"
  proof -
    assume "load sm fs n now = (Inr (), sm')"
    from load_success [OF this] obtain doc kvs md where
      d: "fs (load_path sm n) = Some (Document doc)" and k: "json_load doc = PDict kvs"
      and m: "(case map_of kvs ''metadata'' of None \<Rightarrow> PDict [] | Some m \<Rightarrow> m) = PDict md"
      and s: "sm' = sm\<lparr>state := (case map_of kvs ''state'' of None \<Rightarrow> PDict [] | Some st \<Rightarrow> st),
                metadata := PDict (dict_setitem md ''updated_at'' (PStr now))\<rparr>"
      by blast
    have "field (metadata sm') ''created_at'' =
               (case field (json_load doc) ''metadata'' of None \<Rightarrow> None | Some md \<Rightarrow> field md ''created_at'')"
      using k m s by (auto simp: map_of_dict_setitem_other split: option.splits)
    with d show ?thesis by blast
  qed
  from a b c show ?thesis by blast
qed

theorem created_at_replaced_only_by_load_witness:
  "field (metadata (fst (exec_all
       [(Set ''count'' (PInt 42), ''2024-01-01T00:00:02'', ''20240101_000002''),
        (Delete ''name'', ''2024-01-01T00:00:03'', ''20240101_000003''),
        (Save None, ''2024-01-01T00:00:04'', ''20240101_000004''),
        (Backup None, ''2024-01-01T00:00:05'', ''20240101_000005''),
        (Clear, ''2024-01-01T00:00:06'', ''20240101_000006'')]
       (example_entries, empty_fs)))) ''created_at'' = Some (PStr ''2024-01-01T00:00:00'')
   \<and> load example_store bare_fs ''bare'' ''2024-01-02T00:00:00'' =
        (Inr (), example_store\<lparr>state := PDict [(''count'', PInt 42)],
            metadata := PDict [(''updated_at'', PStr ''2024-01-02T00:00:00'')]\<rparr>)
   \<and> field (metadata (example_store\<lparr>state := PDict [(''count'', PInt 42)],
            metadata := PDict [(''updated_at'', PStr ''2024-01-02T00:00:00'')]\<rparr>))
         ''created_at'' = None"
  using created_at_replaced_only_by_load [where sm = example_entries and fs = empty_fs and cmds =
      "[(Set ''count'' (PInt 42), ''2024-01-01T00:00:02'', ''20240101_000002''),
        (Delete ''name'', ''2024-01-01T00:00:03'', ''20240101_000003''),
        (Save None, ''2024-01-01T00:00:04'', ''20240101_000004''),
        (Backup None, ''2024-01-01T00:00:05'', ''20240101_000005''),
        (Clear, ''2024-01-01T00:00:06'', ''20240101_000006'')]"]
    created_at_replaced_only_by_load [where sm = example_store and fs = bare_fs and n = "''bare''"
      and now = "''2024-01-02T00:00:00''" and cmds = "[]"
      and sm' = "example_store\<lparr>state := PDict [(''count'', PInt 42)],
            metadata := PDict [(''updated_at'', PStr ''2024-01-02T00:00:00'')]\<rparr>"]
  by (simp add: example_entries_def example_store_def StateManager_init_def
      load_def load_path_def Let_def endswith_eval empty_fs_def bare_fs_def dict_of_items_def
      touch_def)

text \<open>
  Claim C3 as stated fails at a load into a fresh store: the store built on 1 June has
  \<^verbatim>\<open>created_at\<close> of 1 June, and after it loads the snapshot that the store built on
  1 January saved, its \<^verbatim>\<open>created_at\<close> is 1 January.
\<close>

theorem created_at_replaced_only_by_load_counterexample:
  "field (metadata later_store) ''created_at'' = Some (PStr ''2024-06-01T00:00:00'')
   \<and> load later_store (snd (save example_entries empty_fs (Some ''snap'') ''20240101_000002''))
         ''snap'' ''2024-06-01T00:00:05'' =
       (Inr (), later_store\<lparr>state := state example_entries,
          metadata := PDict [(''created_at'', PStr ''2024-01-01T00:00:00''),
             (''updated_at'', PStr ''2024-06-01T00:00:05''), (''version'', PStr ''1.0'')]\<rparr>)"
  by (simp add: later_store_def example_entries_def example_store_def StateManager_init_def
      save_def write_json_def document_of_def save_path_def load_def load_path_def Let_def
      endswith_eval empty_fs_def dict_of_items_def touch_def)

lemma str_case_iff:
  "(case x of Some (PStr u) \<Rightarrow> P u | _ \<Rightarrow> False) = (\<exists>u. x = Some (PStr u) \<and> P u)"
proof (cases x)
  case None
  then show ?thesis by simp
next
  case (Some y)
  then show ?thesis by (cases y) simp_all
qed

lemma stamped_in_order_iff:
  "stamped_in_order sm =
     (\<exists>c u. field (metadata sm) ''created_at'' = Some (PStr c)
        \<and> field (metadata sm) ''updated_at'' = Some (PStr u) \<and> c \<le> u)"
  unfolding stamped_in_order_def str_case_iff by blast

lemma not_before_iff:
  "not_before sm now = (\<exists>u. field (metadata sm) ''updated_at'' = Some (PStr u) \<and> u \<le> now)"
  unfolding not_before_def str_case_iff by blast

lemma dict_case_iff:
  "(case x of Some (PDict md) \<Rightarrow> P md | _ \<Rightarrow> False) = (\<exists>md. x = Some (PDict md) \<and> P md)"
proof (cases x)
  case None
  then show ?thesis by simp
next
  case (Some y)
  then show ?thesis by (cases y) simp_all
qed

lemma loadable_in_order_dict:
  "json_load doc = PDict kvs \<Longrightarrow>
   loadable_in_order doc now =
     (\<exists>md c. map_of kvs ''metadata'' = Some (PDict md)
        \<and> map_of md ''created_at'' = Some (PStr c) \<and> c \<le> now)"
  unfolding loadable_in_order_def str_case_iff dict_case_iff by auto

lemma restamped_in_order:
  assumes "stamped_in_order sm" "not_before sm now" "restamped (metadata sm) now (metadata sm')"
  shows "stamped_in_order sm'"
proof -
  from assms(3) consider "metadata sm' = metadata sm"
    | md where "metadata sm = PDict md" "metadata sm' = PDict (dict_setitem md ''updated_at'' (PStr now))"
    by (auto simp: restamped_def)
  then show ?thesis
  proof cases
    case 1
    show ?thesis using assms(1) unfolding stamped_in_order_iff 1 .
  next
    case 2
    from assms(1) 2(1) obtain c u where c: "map_of md ''created_at'' = Some (PStr c)"
      and u: "map_of md ''updated_at'' = Some (PStr u)" and cu: "c \<le> u"
      by (auto simp: stamped_in_order_iff)
    from assms(2) 2(1) u have "u \<le> now" by (simp add: not_before_iff)
    with cu have "c \<le> now" by (rule order_trans)
    with c 2(2) show ?thesis
      by (simp add: stamped_in_order_iff map_of_dict_setitem_same map_of_dict_setitem_other)
  qed
qed

lemma load_keeps_order:
  assumes "stamped_in_order sm" "load_in_order (Load n) sm fs now"
  shows "stamped_in_order (snd (load sm fs n now))"
proof (cases "fs (load_path sm n)")
  case None
  with assms(1) show ?thesis by (simp add: load_def Let_def)
next
  case (Some f)
  show ?thesis
  proof (cases f)
    case (Malformed m)
    with Some assms(1) show ?thesis by (simp add: load_def Let_def)
  next
    case (Document doc)
    show ?thesis
    proof (cases "is_dict (json_load doc)")
      case False
      then have "\<exists>e. py_get (json_load doc) ''state'' (PDict []) = Inl e"
        by (cases "json_load doc") auto
      with Some Document assms(1) show ?thesis by (auto simp: load_def Let_def)
    next
      case True
      then obtain kvs where kvs: "json_load doc = PDict kvs" by (cases "json_load doc") auto
      from assms(2) Some Document kvs obtain md c where
        md: "map_of kvs ''metadata'' = Some (PDict md)"
        and c: "map_of md ''created_at'' = Some (PStr c)" and le: "c \<le> now"
        by (auto simp: loadable_in_order_dict)
      from Some Document kvs md c le show ?thesis
        by (simp add: load_def Let_def touch_def stamped_in_order_iff
            map_of_dict_setitem_same map_of_dict_setitem_other)
    qed
  qed
qed

lemma exec_keeps_order:
  assumes "stamped_in_order sm" "not_before sm now" "load_in_order c sm fs now"
  shows "stamped_in_order (fst (exec c (now, stamp) (sm, fs)))"
proof (cases "is_Load c")
  case True
  then obtain n where "c = Load n" by (cases c) auto
  with assms load_keeps_order show ?thesis by simp
next
  case False
  from restamped_in_order [OF assms(1,2) exec_metadata [OF False]] show ?thesis .
qed

lemma exec_all_keeps_order:
  "stamped_in_order (fst s) \<Longrightarrow> clock_in_order cmds s \<Longrightarrow> stamped_in_order (fst (exec_all cmds s))"
proof (induction cmds arbitrary: s)
  case Nil
  then show ?case by simp
next
  case (Cons ct cmds)
  obtain c now stamp where ct: "ct = (c, now, stamp)" by (cases ct)
  obtain sm fs where s: "s = (sm, fs)" by (cases s)
  from Cons.prems ct s have "stamped_in_order (fst (exec c (now, stamp) (sm, fs)))"
    by (simp add: exec_keeps_order)
  with Cons ct s show ?case by simp
qed

text \<open>
  Claim C6, as the code has it. A store built with two readings of the clock that do not
  go backwards has \<^verbatim>\<open>updated_at >= created_at\<close>, and the order is kept at every point of
  every sequence of calls in which no reading of the clock is earlier than the stored
  \<^verbatim>\<open>updated_at\<close> and every document that a \<^verbatim>\<open>load\<close> reads carries, in a metadata object,
  a \<^verbatim>\<open>created_at\<close> that is not later than the time of the load.
\<close>

theorem timestamps_stay_in_order:
  "(t1 \<le> t2 \<longrightarrow> stamped_in_order (StateManager_init d a t1 t2))
   \<and> (stamped_in_order sm \<and> clock_in_order cmds (sm, fs) \<longrightarrow>
        stamped_in_order (fst (exec_all cmds (sm, fs))))"
proof -
  have a: "t1 \<le> t2 \<Longrightarrow> stamped_in_order (StateManager_init d a t1 t2)"
    by (simp add: stamped_in_order_iff StateManager_init_def)
  have b: "stamped_in_order sm \<Longrightarrow> clock_in_order cmds (sm, fs) \<Longrightarrow>
        stamped_in_order (fst (exec_all cmds (sm, fs)))"
    using exec_all_keeps_order [of "(sm, fs)" cmds] by simp
  from a b show ?thesis by blast
qed

theorem timestamps_stay_in_order_witness:
  "''2024-01-01T00:00:00'' \<le> ''2024-01-01T00:00:01''
   \<and> stamped_in_order (StateManager_init ''states'' False ''2024-01-01T00:00:00'' ''2024-01-01T00:00:01'')
   \<and> stamped_in_order example_store
   \<and> clock_in_order [(Set ''count'' (PInt 42), ''2024-01-01T00:00:02'', ''20240101_000002''),
        (Save (Some ''snap''), ''2024-01-01T00:00:03'', ''20240101_000003''),
        (Clear, ''2024-01-01T00:00:04'', ''20240101_000004''),
        (Load ''snap'', ''2024-01-01T00:00:05'', ''20240101_000005'')] (example_store, empty_fs)
   \<and> stamped_in_order (fst (exec_all [(Set ''count'' (PInt 42), ''2024-01-01T00:00:02'', ''20240101_000002''),
        (Save (Some ''snap''), ''2024-01-01T00:00:03'', ''20240101_000003''),
        (Clear, ''2024-01-01T00:00:04'', ''20240101_000004''),
        (Load ''snap'', ''2024-01-01T00:00:05'', ''20240101_000005'')] (example_store, empty_fs)))"
  using timestamps_stay_in_order [of "''2024-01-01T00:00:00''" "''2024-01-01T00:00:01''" "''states''"
      False example_store
      "[(Set ''count'' (PInt 42), ''2024-01-01T00:00:02'', ''20240101_000002''),
        (Save (Some ''snap''), ''2024-01-01T00:00:03'', ''20240101_000003''),
        (Clear, ''2024-01-01T00:00:04'', ''20240101_000004''),
        (Load ''snap'', ''2024-01-01T00:00:05'', ''20240101_000005'')]" empty_fs]
  by (simp add: example_store_def StateManager_init_def stamped_in_order_def not_before_def
      set_value_def clear_def touch_def autosave_after_def Let_def
      save_def write_json_def document_of_def save_path_def load_def load_path_def
      endswith_eval empty_fs_def dict_of_items_def loadable_in_order_def)

text \<open>
  Claim C6 as stated fails at \<^verbatim>\<open>load\<close>, which takes \<^verbatim>\<open>created_at\<close> from the document and
  \<^verbatim>\<open>updated_at\<close> from the clock. A snapshot saved by a store built at 01:30 and loaded at
  01:05 on the wall clock (set back in between) leaves \<^verbatim>\<open>updated_at\<close> before
  \<^verbatim>\<open>created_at\<close>; a document without metadata leaves no \<^verbatim>\<open>created_at\<close> at all.
\<close>

theorem timestamps_stay_in_order_counterexample:
  "\<not> stamped_in_order (snd (load after_fallback_store
        (snd (save fallback_store empty_fs (Some ''snap'') ''20241103_013001''))
        ''snap'' ''2024-11-03T01:05:01''))
   \<and> field (metadata (snd (load after_fallback_store
        (snd (save fallback_store empty_fs (Some ''snap'') ''20241103_013001''))
        ''snap'' ''2024-11-03T01:05:01''))) ''created_at'' = Some (PStr ''2024-11-03T01:30:00'')
   \<and> field (metadata (snd (load after_fallback_store
        (snd (save fallback_store empty_fs (Some ''snap'') ''20241103_013001''))
        ''snap'' ''2024-11-03T01:05:01''))) ''updated_at'' = Some (PStr ''2024-11-03T01:05:01'')
   \<and> load example_store bare_fs ''bare'' ''2024-01-02T00:00:00'' =
        (Inr (), example_store\<lparr>state := PDict [(''count'', PInt 42)],
            metadata := PDict [(''updated_at'', PStr ''2024-01-02T00:00:00'')]\<rparr>)"
  by (simp add: after_fallback_store_def fallback_store_def example_store_def StateManager_init_def
      save_def write_json_def document_of_def save_path_def load_def load_path_def Let_def
      endswith_eval empty_fs_def bare_fs_def dict_of_items_def touch_def stamped_in_order_def)

subsection \<open>Saving and loading\<close>

lemma collect_map_roundtrip:
  "(\<And>x. x \<in> set xs \<Longrightarrow> \<exists>j. f x = Inr j \<and> g j = x) \<Longrightarrow>
     \<exists>js. collect (map f xs) = Inr js \<and> map g js = xs"
proof (induction xs)
  case Nil
  then show ?case by simp
next
  case (Cons x xs)
  from Cons.prems obtain j where j: "f x = Inr j" "g j = x" by auto
  have "\<exists>js. collect (map f xs) = Inr js \<and> map g js = xs"
    by (rule Cons.IH) (simp add: Cons.prems)
  then obtain js where js: "collect (map f xs) = Inr js" "map g js = xs" by blast
  from j js show ?case by simp
qed

lemma collect_items_map_roundtrip:
  "(\<And>p. p \<in> set kvs \<Longrightarrow> \<exists>j. f (snd p) = Inr j \<and> g j = snd p) \<Longrightarrow>
     \<exists>js. collect_items (map (map_prod id f) kvs) = Inr js \<and> map (map_prod id g) js = kvs"
proof (induction kvs)
  case Nil
  then show ?case by simp
next
  case (Cons p kvs)
  obtain k v where p: "p = (k, v)" by (cases p)
  from Cons.prems p obtain j where j: "f v = Inr j" "g j = v" by fastforce
  have "\<exists>js. collect_items (map (map_prod id f) kvs) = Inr js \<and> map (map_prod id g) js = kvs"
    by (rule Cons.IH) (simp add: Cons.prems)
  then obtain js where js: "collect_items (map (map_prod id f) kvs) = Inr js"
    "map (map_prod id g) js = kvs" by blast
  have a: "collect_items (map (map_prod id f) (p # kvs)) = Inr ((k, j) # js)"
    unfolding p using j(1) js(1) by (simp only: list.map map_prod_simp id_apply collect_items.simps sum.case)
  have b: "map (map_prod id g) ((k, j) # js) = p # kvs"
    unfolding p using j(2) js(2) by (simp only: list.map map_prod_simp id_apply)
  show ?case by (rule exI [where x = "(k, j) # js"]) (rule conjI [OF a b])
qed

lemma dict_setitem_new: "k \<notin> fst ` set kvs \<Longrightarrow> dict_setitem kvs k v = kvs @ [(k, v)]"
  by (induction kvs) auto

lemma foldl_dict_setitem_distinct:
  "distinct (map fst (acc @ kvs)) \<Longrightarrow>
     foldl (\<lambda>d p. dict_setitem d (fst p) (snd p)) acc kvs = acc @ kvs"
proof (induction kvs arbitrary: acc)
  case Nil
  then show ?case by simp
next
  case (Cons p kvs)
  from Cons.prems have new: "fst p \<notin> fst ` set acc" by auto
  from Cons.prems have "distinct (map fst ((acc @ [p]) @ kvs))" by auto
  from Cons.IH [OF this] new show ?case by (simp add: dict_setitem_new)
qed

lemma dict_of_items_distinct: "distinct (map fst kvs) \<Longrightarrow> dict_of_items kvs = kvs"
  using foldl_dict_setitem_distinct [of "[]" kvs] by (simp add: dict_of_items_def)

lemma json_roundtrip: "json_faithful v \<Longrightarrow> \<exists>j. json_dump v = Inr j \<and> json_load j = v"
proof (induction v)
  case (PList xs)
  have "\<And>x. x \<in> set xs \<Longrightarrow> \<exists>j. json_dump x = Inr j \<and> json_load j = x"
    using PList by (auto simp: list_all_iff)
  from collect_map_roundtrip [of xs json_dump json_load, OF this]
  show ?case by auto
next
  case (PDict kvs)
  have "\<And>p. p \<in> set kvs \<Longrightarrow> \<exists>j. json_dump (snd p) = Inr j \<and> json_load j = snd p"
  proof -
    fix p assume p: "p \<in> set kvs"
    obtain k v where kv: "p = (k, v)" by (cases p)
    from PDict.prems p kv have "json_faithful v" by (force simp: list_all_iff)
    with PDict.IH [of p v] p kv show "\<exists>j. json_dump (snd p) = Inr j \<and> json_load j = snd p"
      by simp
  qed
  from collect_items_map_roundtrip [of kvs json_dump json_load, OF this]
  obtain js where js: "collect_items (map (map_prod id json_dump) kvs) = Inr js"
    "map (map_prod id json_load) js = kvs" by auto
  from PDict.prems have "distinct (map fst kvs)" by simp
  with js show ?case by (simp add: dict_of_items_distinct)
qed simp_all

text \<open>
  Claim C1, as the code has it. For every store whose entries and metadata are mappings of
  values that JSON carries faithfully (no tuple, no object the encoder refuses), and every
  snapshot name that does not end in \<^verbatim>\<open>.json\<close>: \<^verbatim>\<open>save(name)\<close> returns, and then
  \<^verbatim>\<open>load(name)\<close> on any other store over the same directory returns and leaves that store
  with entries equal to the saved ones, with the saved \<^verbatim>\<open>version\<close>, and with \<^verbatim>\<open>updated_at\<close>
  equal to the time of the load.
\<close>

theorem save_then_load_round_trip:
  assumes "is_dict (state sm)" "json_faithful (state sm)"
    and "is_dict (metadata sm)" "json_faithful (metadata sm)"
    and "\<not> endswith n ''.json''" and "state_dir fresh = state_dir sm"
  shows "\<exists>p fs' sm'. save sm fs (Some n) stamp = (Inr p, fs')
      \<and> load fresh fs' n now = (Inr (), sm')
      \<and> state sm' = state sm
      \<and> field (metadata sm') ''version'' = field (metadata sm) ''version''
      \<and> field (metadata sm') ''updated_at'' = Some (PStr now)"
proof -
  from assms(1) obtain E where E: "state sm = PDict E" by (cases "state sm") auto
  from assms(3) obtain md where md: "metadata sm = PDict md" by (cases "metadata sm") auto
  have "json_faithful (document_of sm)"
    using assms(2,4) by (simp add: document_of_def)
  from json_roundtrip [OF this] obtain j where
    j: "json_dump (document_of sm) = Inr j" "json_load j = document_of sm" by auto
  have path: "load_path fresh n = save_path sm n"
    using assms(5,6) by (simp add: load_path_def save_path_def)
  have sv: "save sm fs (Some n) stamp = (Inr (save_path sm n), fs(save_path sm n \<mapsto> Document j))"
    using j by (simp add: save_def write_json_def Let_def)
  have ld: "load fresh (fs(save_path sm n \<mapsto> Document j)) n now =
      (Inr (), fresh\<lparr>state := PDict E, metadata := PDict (dict_setitem md ''updated_at'' (PStr now))\<rparr>)"
    using j path E md by (simp add: load_def Let_def document_of_def touch_def)
  from sv ld E md show ?thesis
    by (simp add: map_of_dict_setitem_same map_of_dict_setitem_other)
qed

theorem save_then_load_round_trip_witness:
  "is_dict (state example_entries) \<and> json_faithful (state example_entries)
   \<and> is_dict (metadata example_entries) \<and> json_faithful (metadata example_entries)
   \<and> \<not> endswith ''snap'' ''.json'' \<and> state_dir later_store = state_dir example_entries
   \<and> load later_store (snd (save example_entries empty_fs (Some ''snap'') ''20240101_000002''))
         ''snap'' ''2024-06-01T00:00:05'' =
       (Inr (), later_store\<lparr>state := state example_entries,
          metadata := PDict [(''created_at'', PStr ''2024-01-01T00:00:00''),
             (''updated_at'', PStr ''2024-06-01T00:00:05''), (''version'', PStr ''1.0'')]\<rparr>)"
  using save_then_load_round_trip [of example_entries "''snap''" later_store empty_fs "''20240101_000002''" "''2024-06-01T00:00:05''"]
  by (simp add: later_store_def example_entries_def example_store_def StateManager_init_def
      save_def write_json_def document_of_def save_path_def load_def load_path_def Let_def
      endswith_eval empty_fs_def dict_of_items_def touch_def)

text \<open>
  Claim C1 as stated fails for the name \<^verbatim>\<open>snap.json\<close> (\<^verbatim>\<open>save\<close> writes
  \<^verbatim>\<open>snap.json.json\<close> and \<^verbatim>\<open>load\<close> finds no \<^verbatim>\<open>snap.json\<close>), for an entry that is a tuple
  (it comes back as a list), and for an entry the encoder refuses (\<^verbatim>\<open>save\<close> raises).
\<close>

theorem save_then_load_round_trip_counterexample:
  "fst (load later_store (snd (save example_entries empty_fs (Some ''snap.json'') ''20240101_000002''))
        ''snap.json'' ''2024-06-01T00:00:05'') =
     Inl (FileNotFoundError ''State file not found: states/snap.json'')
   \<and> state tuple_store = PDict [(''pair'', PTuple [PInt 1, PInt 2])]
   \<and> state (snd (load later_store (snd (save tuple_store empty_fs (Some ''snap'') ''20240101_000002''))
        ''snap'' ''2024-06-01T00:00:05'')) = PDict [(''pair'', PList [PInt 1, PInt 2])]
   \<and> fst (save poisoned_store empty_fs (Some ''snap'') ''20240101_000002'') =
     Inl (TypeError ''Object of type socket is not JSON serializable'')"
  by (simp add: later_store_def poisoned_store_def example_entries_def example_store_def tuple_store_def StateManager_init_def
      save_def write_json_def document_of_def save_path_def load_def load_path_def Let_def
      endswith_eval empty_fs_def dict_of_items_def touch_def)

subsection \<open>The lifecycle of a run\<close>

lemma collect_items_ok:
  "(\<exists>js. collect_items (map (map_prod id f) kvs) = Inr js) = (\<forall>p \<in> set kvs. \<exists>j. f (snd p) = Inr j)"
proof (induction kvs)
  case Nil
  then show ?case by simp
next
  case (Cons p kvs)
  obtain k v where p: "p = (k, v)" by (cases p)
  show ?case
  proof (cases "f v")
    case (Inl e)
    with p show ?thesis by auto
  next
    case (Inr j)
    with p Cons show ?thesis by (auto split: sum.splits)
  qed
qed

lemma jsonable_iff: "jsonable v = (\<exists>j. json_dump v = Inr j)"
  by (cases "json_dump v") (simp_all add: jsonable_def)

lemma jsonable_dict: "jsonable (PDict kvs) = (\<forall>p \<in> set kvs. jsonable (snd p))"
proof -
  have "jsonable (PDict kvs) = (\<exists>js. collect_items (map (map_prod id json_dump) kvs) = Inr js)"
    by (cases "collect_items (map (map_prod id json_dump) kvs)") (simp_all add: jsonable_iff)
  then show ?thesis by (simp add: collect_items_ok jsonable_iff)
qed

lemma set_dict_setitem: "set (dict_setitem kvs k v) \<subseteq> insert (k, v) (set kvs)"
  by (induction kvs) (auto split: if_splits)

lemma jsonable_setitem:
  "jsonable (PDict kvs) \<Longrightarrow> jsonable v \<Longrightarrow> jsonable (PDict (dict_setitem kvs k v))"
  using set_dict_setitem [of kvs k v] by (auto simp: jsonable_dict)

lemma jsonable_document: "jsonable (document_of sm) = (jsonable (metadata sm) \<and> jsonable (state sm))"
  by (simp add: document_of_def jsonable_dict)

lemma jsonable_str: "jsonable (PStr s)"
  by (simp add: jsonable_def)

lemma jsonable_error_record: "jsonable (error_record e now)"
  by (simp add: error_record_def jsonable_dict jsonable_str)

lemma set_state_entries:
  assumes "set_state a fs k v now stamp = (x, a', fs')" "state (state_manager a) = PDict kvs"
  shows "state (state_manager a') = PDict (dict_setitem kvs k v)"
  using set_value_dict [OF assms(2), of fs k v now stamp] assms(1)
  by (auto simp: set_state_def split: prod.splits)

lemma set_value_ok:
  assumes "writes_succeed sm" "jsonable v"
  shows "fst (set_value sm fs k v now stamp) = Inr ()
     \<and> writes_succeed (fst (snd (set_value sm fs k v now stamp)))"
proof -
  from assms(1) obtain kvs md where st: "state sm = PDict kvs" and md: "metadata sm = PDict md"
    by (cases "state sm"; cases "metadata sm") (auto simp: writes_succeed_def)
  let ?sm2 = "sm\<lparr>state := PDict (dict_setitem kvs k v),
      metadata := PDict (dict_setitem md ''updated_at'' (PStr now))\<rparr>"
  have eq: "set_value sm fs k v now stamp = autosave_after ?sm2 fs stamp ()"
    by (simp add: set_value_def touch_def Let_def st md)
  have w: "writes_succeed ?sm2"
    using assms st md by (auto simp: writes_succeed_def jsonable_setitem jsonable_str)
  then have "autosave ?sm2 \<Longrightarrow> jsonable (document_of ?sm2)"
    by (simp add: writes_succeed_def jsonable_document)
  then have "fst (autosave_after ?sm2 fs stamp ()) = Inr ()"
    by (auto simp: autosave_after_result jsonable_iff)
  with w eq show ?thesis by (simp add: autosave_after_store)
qed

lemma set_state_ok:
  assumes "set_state a fs k v now stamp = (x, a', fs')" "writes_succeed (state_manager a)" "jsonable v"
  shows "x = Inr () \<and> writes_succeed (state_manager a')"
  using set_value_ok [OF assms(2,3), of fs k now stamp] assms(1)
  by (auto simp: set_state_def split: prod.splits)

lemmas agent_defs = run_def try_block_def except_block_def finally_block_def on_start_def on_stop_def
  on_success_def on_error_def error_record_def set_state_def BaseAgent_init_def
  StateManager_init_def set_value_def touch_def autosave_after_def save_def write_json_def
  document_of_def save_path_def Let_def tick_def

lemma scenario_c:
  "fst (run test_process test_agent empty_fs ''hello'' tick tick tick tick) = Inr ''Processed: hello''"
  by (simp add: agent_defs test_process_def test_agent_def empty_fs_def)

lemma run_ends_in_finally:
  "\<exists>r a2 fs2. run process a fs input_data c_start c_success c_error c_stop =
      finally_block r a2 fs2 c_stop"
  by (auto simp: run_def Let_def split: prod.splits sum.splits)

lemma finally_clears_running:
  "fst (on_stop a fs c_stop) = Inr () \<Longrightarrow> \<not> is_running (fst (snd (finally_block r a fs c_stop)))"
  by (auto simp: finally_block_def split: prod.splits sum.splits)

text \<open>
  Claim C2, as the code has it. Take an agent whose \<^verbatim>\<open>on_start\<close> hook returned and whose
  \<^verbatim>\<open>process\<close> step then raises a failure \<open>e\<close> that is an \<^verbatim>\<open>Exception\<close>, leaving entries that
  are a mapping. Then after \<^verbatim>\<open>run\<close> the entry \<^verbatim>\<open>last_error\<close> holds the record with the
  timestamp, the message \<^verbatim>\<open>str(e)\<close> and the class name of \<open>e\<close>, and the entry \<^verbatim>\<open>last_stop\<close>
  is set. When moreover the writes of the hooks go through (autosave is off, or all that
  the store holds can be written), \<^verbatim>\<open>run\<close> raises \<open>e\<close> itself and \<^verbatim>\<open>is_running\<close> is false
  afterwards.
\<close>

theorem run_records_process_failure:
  fixes process :: "('i, 'o) process"
  assumes start: "on_start (a\<lparr>is_running := True\<rparr>) fs c_start = (Inr (), a1, fs1)"
    and proc: "process input_data a1 fs1 = (Inl e, a2, fs2)"
    and exc: "is_Exception e"
    and st: "is_dict (state (state_manager a2))"
  shows "field (state (state_manager (fst (snd (run process a fs input_data c_start c_success c_error c_stop)))))
        ''last_error'' = Some (error_record e (at_call c_error))
    \<and> field (state (state_manager (fst (snd (run process a fs input_data c_start c_success c_error c_stop)))))
        ''last_stop'' = Some (PStr (at_call c_stop))
    \<and> (writes_succeed (state_manager a2) \<longrightarrow>
          fst (run process a fs input_data c_start c_success c_error c_stop) = Inl e
          \<and> \<not> is_running (fst (snd (run process a fs input_data c_start c_success c_error c_stop))))"
proof -
  obtain x a3 fs3 where oe: "on_error a2 fs2 e c_error = (x, a3, fs3)"
    by (cases "on_error a2 fs2 e c_error") auto
  obtain y a4 fs4 where os: "on_stop a3 fs3 c_stop = (y, a4, fs4)"
    by (cases "on_stop a3 fs3 c_stop") auto
  let ?r = "(case x of Inl e' \<Rightarrow> Inl e' | Inr u \<Rightarrow> Inl e) :: exn + 'o"
  have run_eq: "run process a fs input_data c_start c_success c_error c_stop =
      (case y of Inl e' \<Rightarrow> (Inl e', a4, fs4) | Inr u \<Rightarrow> (?r, a4\<lparr>is_running := False\<rparr>, fs4))"
    by (simp add: run_def try_block_def except_block_def finally_block_def Let_def start proc exc
        oe os split: sum.splits)
  from st obtain kvs where kvs: "state (state_manager a2) = PDict kvs" by (cases "state (state_manager a2)") auto
  have s3: "state (state_manager a3) = PDict (dict_setitem kvs ''last_error'' (error_record e (at_call c_error)))"
    using oe kvs by (auto simp: on_error_def intro: set_state_entries)
  have s4: "state (state_manager a4) = PDict (dict_setitem
      (dict_setitem kvs ''last_error'' (error_record e (at_call c_error)))
      ''last_stop'' (PStr (at_call c_stop)))"
    using os s3 by (auto simp: on_stop_def intro: set_state_entries)
  have fin: "state (state_manager (fst (snd (run process a fs input_data c_start c_success c_error c_stop))))
      = state (state_manager a4)"
    by (simp add: run_eq split: sum.splits)
  have mem: "field (state (state_manager a4)) ''last_error'' = Some (error_record e (at_call c_error))
      \<and> field (state (state_manager a4)) ''last_stop'' = Some (PStr (at_call c_stop))"
    by (simp add: s4 map_of_dict_setitem_same map_of_dict_setitem_other)
  have ok: "writes_succeed (state_manager a2) \<Longrightarrow>
      fst (run process a fs input_data c_start c_success c_error c_stop) = Inl e
      \<and> \<not> is_running (fst (snd (run process a fs input_data c_start c_success c_error c_stop)))"
  proof -
    assume w: "writes_succeed (state_manager a2)"
    from oe have "set_state a2 fs2 ''last_error'' (error_record e (at_call c_error))
        (at_set c_error) (at_save c_error) = (x, a3, fs3)" by (simp add: on_error_def)
    from set_state_ok [OF this w jsonable_error_record]
    have x: "x = Inr ()" and w3: "writes_succeed (state_manager a3)" by simp_all
    from os have "set_state a3 fs3 ''last_stop'' (PStr (at_call c_stop))
        (at_set c_stop) (at_save c_stop) = (y, a4, fs4)" by (simp add: on_stop_def)
    from set_state_ok [OF this w3 jsonable_str] have y: "y = Inr ()" by simp
    show ?thesis by (simp add: run_eq x y)
  qed
  from fin mem ok show ?thesis by simp
qed

theorem run_records_process_failure_witness:
  "fst (on_start (test_agent\<lparr>is_running := True\<rparr>) empty_fs tick) = Inr ()
   \<and> is_Exception (Raised ''ValueError'' ''Test error'')
   \<and> is_dict (state (state_manager (fst (snd (on_start (test_agent\<lparr>is_running := True\<rparr>) empty_fs tick)))))
   \<and> writes_succeed (state_manager (fst (snd (on_start (test_agent\<lparr>is_running := True\<rparr>) empty_fs tick))))
   \<and> fst (run error_process test_agent empty_fs ''data'' tick tick tick tick) =
       Inl (Raised ''ValueError'' ''Test error'')
   \<and> field (state (state_manager (fst (snd (run error_process test_agent empty_fs ''data'' tick tick tick tick)))))
       ''last_error'' = Some (PDict [(''timestamp'', PStr ''2024-01-02T00:00:00''),
          (''error'', PStr ''Test error''), (''type'', PStr ''ValueError'')])
   \<and> field (state (state_manager (fst (snd (run error_process test_agent empty_fs ''data'' tick tick tick tick)))))
       ''last_stop'' = Some (PStr ''2024-01-02T00:00:00'')
   \<and> \<not> is_running (fst (snd (run error_process test_agent empty_fs ''data'' tick tick tick tick)))"
  using run_records_process_failure [where process = error_process and a = test_agent
      and fs = empty_fs and input_data = "''data''" and c_start = tick and c_success = tick
      and c_error = tick and c_stop = tick and e = "Raised ''ValueError'' ''Test error''"
      and ?a1.0 = "fst (snd (on_start (test_agent\<lparr>is_running := True\<rparr>) empty_fs tick))"
      and ?fs1.0 = "snd (snd (on_start (test_agent\<lparr>is_running := True\<rparr>) empty_fs tick))"
      and ?a2.0 = "fst (snd (on_start (test_agent\<lparr>is_running := True\<rparr>) empty_fs tick))"
      and ?fs2.0 = "snd (snd (on_start (test_agent\<lparr>is_running := True\<rparr>) empty_fs tick))"]
  by (simp add: agent_defs error_process_def test_agent_def empty_fs_def writes_succeed_def)

text \<open>
  Claim C2 as stated fails in two ways. A \<^verbatim>\<open>process\<close> that leaves a socket in the store
  and raises \<^verbatim>\<open>ValueError("boom")\<close> on an agent with autosave on: the autosave of
  \<^verbatim>\<open>on_error\<close> raises inside the handler, and the caller gets that \<^verbatim>\<open>TypeError\<close>, not the
  \<^verbatim>\<open>ValueError\<close>. A \<^verbatim>\<open>process\<close> that is interrupted from the keyboard: \<^verbatim>\<open>except Exception\<close>
  does not handle the interrupt, and \<^verbatim>\<open>last_error\<close> is not recorded.
\<close>

theorem run_records_process_failure_counterexample:
  "fst (run socket_process autosave_agent empty_fs ''data'' tick tick tick tick) =
     Inl (TypeError ''Object of type socket is not JSON serializable'')
   \<and> fst (run interrupted_process test_agent empty_fs ''data'' tick tick tick tick) =
     Inl (RaisedBase ''KeyboardInterrupt'' [])
   \<and> field (state (state_manager (fst (snd (run interrupted_process test_agent empty_fs ''data''
         tick tick tick tick))))) ''last_error'' = None"
  by (simp add: agent_defs socket_process_def interrupted_process_def autosave_agent_def
      test_agent_def empty_fs_def)

text \<open>
  Claim C4 says that \<^verbatim>\<open>on_stop\<close> is called on every path through \<^verbatim>\<open>run\<close> and that
  \<^verbatim>\<open>is_running\<close> is false afterwards, also when a hook raises. The first half holds
  (\<open>run_ends_in_finally\<close>), and so does the second whenever \<^verbatim>\<open>on_stop\<close> returns
  (\<open>finally_clears_running\<close>). But the \<^verbatim>\<open>finally\<close> clause calls \<^verbatim>\<open>on_stop\<close> before it clears
  the flag: on an agent with autosave on whose \<^verbatim>\<open>process\<close> records an input that JSON
  cannot carry, \<^verbatim>\<open>process\<close> raises, \<^verbatim>\<open>on_error\<close> raises, \<^verbatim>\<open>on_stop\<close> is called and raises
  too, and \<^verbatim>\<open>run\<close> ends with \<^verbatim>\<open>is_running\<close> still true.
\<close>

theorem run_leaves_running_set:
  "fst (run recording_process autosave_agent empty_fs (PObject ''bytes'') tick tick tick tick) =
     Inl (TypeError ''Object of type bytes is not JSON serializable'')
   \<and> is_running (fst (snd (run recording_process autosave_agent empty_fs (PObject ''bytes'')
         tick tick tick tick)))
   \<and> field (state (state_manager (fst (snd (run recording_process autosave_agent empty_fs (PObject ''bytes'')
         tick tick tick tick))))) ''last_stop'' = Some (PStr ''2024-01-02T00:00:00'')"
  by (simp add: agent_defs recording_process_def autosave_agent_def empty_fs_def)

end
